theory Spec2Isabelle
  imports Complex_Main "HOL-Library.Word" "HOL-Library.Multiset"
    "HOL-Library.List_Lexorder" "HOL-Library.Product_Lexorder"
begin

section \<open>Python values\<close>

text \<open>
  A Python \<open>str\<close> is a sequence of Unicode code points, a \<open>bytes\<close> value a sequence
  of octets, a \<open>pathlib.Path\<close> the sequence of its components. An exception is a value
  carrying its message (\<open>str(e)\<close>); a call that may raise returns \<open>exn + 'a\<close>.
\<close>

type_synonym pystr = "nat list"
type_synonym byte = "8 word"
type_synonym path = "pystr list"

datatype exn = Exception pystr

definition py :: "string \<Rightarrow> pystr" where
  "py s = map of_char s"

definition path_name :: "path \<Rightarrow> pystr" where
  "path_name p = (if p = [] then [] else last p)"

text \<open>
  \<open>str.isspace\<close> for one code point, which is also what \<open>str.strip()\<close> removes and
  what \<open>\s\<close> matches in a \<open>str\<close> pattern (Unicode 14, CPython 3.11).
\<close>

definition py_isspace :: "nat \<Rightarrow> bool" where
  "py_isspace c = (c \<in> set [0x9, 0xA, 0xB, 0xC, 0xD, 0x1C, 0x1D, 0x1E, 0x1F, 0x20, 0x85, 0xA0,
     0x1680, 0x2000, 0x2001, 0x2002, 0x2003, 0x2004, 0x2005, 0x2006, 0x2007, 0x2008, 0x2009,
     0x200A, 0x2028, 0x2029, 0x202F, 0x205F, 0x3000])"

definition py_strip :: "pystr \<Rightarrow> pystr" where
  "py_strip s = rev (dropWhile py_isspace (rev (dropWhile py_isspace s)))"

section \<open>indexer.py: data\<close>

record PaperInfo =
  authors :: pystr
  year :: pystr
  title :: pystr
  zotero_key :: pystr
  file_path :: path

text \<open>
  One entry of \<open>state["indexed_files"]\<close>. The state is read back from JSON, and the
  pipeline reads the fingerprint with \<open>.get("hash")\<close>, so that field may be absent.
\<close>

record IndexedFileRecord =
  rec_hash :: "pystr option"
  rec_indexed_at :: pystr
  rec_title :: pystr
  rec_authors :: pystr
  rec_year :: pystr
  rec_pages :: nat

type_synonym indexed_files = "pystr \<rightharpoonup> IndexedFileRecord"

text \<open>The content of \<open>index_state.json\<close>; the file itself may not exist.\<close>

record index_state =
  indexed_files :: indexed_files
  last_indexed :: "pystr option"

record page_meta =
  meta_title :: pystr
  meta_authors :: pystr
  meta_year :: pystr
  meta_zotero_key :: pystr
  meta_source :: pystr
  meta_file_path :: path
  meta_page :: nat
  meta_total_pages :: nat

type_synonym document = "pystr \<times> page_meta"

text \<open>
  What the pipeline calls outside the repository: opening a file for reading, PyMuPDF
  (\<open>fitz.open\<close> and \<open>page.get_text()\<close> of every page, in page order), \<open>hashlib.md5\<close>
  (update over the concatenated input, then \<open>hexdigest\<close>), building and persisting the
  vector index, and the clock.
\<close>

record env =
  open_rb :: "path \<Rightarrow> exn + byte list"
  fitz_open :: "path \<Rightarrow> exn + pystr list"
  md5_hexdigest :: "byte list \<Rightarrow> pystr"
  from_documents :: "document list \<Rightarrow> exn + unit"
  now :: pystr

section \<open>indexer.py: page extraction and fingerprint\<close>

fun pages_loop :: "PaperInfo \<Rightarrow> nat \<Rightarrow> nat \<Rightarrow> pystr list \<Rightarrow> document list" where
  "pages_loop paper n_pages page_num [] = []"
| "pages_loop paper n_pages page_num (text # rest) =
     (if py_strip text \<noteq> []
      then (text, \<lparr>meta_title = title paper, meta_authors = authors paper,
                   meta_year = year paper, meta_zotero_key = zotero_key paper,
                   meta_source = path_name (file_path paper),
                   meta_file_path = file_path paper,
                   meta_page = page_num + 1, meta_total_pages = n_pages\<rparr>)
           # pages_loop paper n_pages (page_num + 1) rest
      else pages_loop paper n_pages (page_num + 1) rest)"

definition extract_pdf_by_pages :: "env \<Rightarrow> PaperInfo \<Rightarrow> exn + document list" where
  "extract_pdf_by_pages E paper =
     (case fitz_open E (file_path paper) of
        Inl e \<Rightarrow> Inl e
      | Inr doc \<Rightarrow> Inr (pages_loop paper (length doc) 0 doc))"

text \<open>\<open>iter(lambda: f.read(4096), b"")\<close>: blocks of 4096 octets until the empty read.\<close>

function read_chunks :: "byte list \<Rightarrow> byte list list" where
  "read_chunks bs = (if bs = [] then [] else take 4096 bs # read_chunks (drop 4096 bs))"
  by pat_completeness auto
termination
  by (relation "measure length") auto

declare read_chunks.simps [simp del]

definition get_file_hash :: "env \<Rightarrow> path \<Rightarrow> exn + pystr" where
  "get_file_hash E filepath =
     (case open_rb E filepath of
        Inl e \<Rightarrow> Inl e
      | Inr bs \<Rightarrow> Inr (md5_hexdigest E (concat (read_chunks bs))))"

section \<open>indexer.py: the indexing run\<close>

definition load_index_state :: "index_state option \<Rightarrow> index_state" where
  "load_index_state disk =
     (case disk of
        Some st \<Rightarrow> st
      | None \<Rightarrow> \<lparr>indexed_files = Map.empty, last_indexed = None\<rparr>)"

definition save_index_state :: "env \<Rightarrow> index_state \<Rightarrow> index_state option" where
  "save_index_state E st = Some (st\<lparr>last_indexed := Some (now E)\<rparr>)"

text \<open>The loop's variables: \<open>state\<close>, \<open>all_documents\<close> and \<open>indexed_count\<close>.\<close>

record run =
  run_state :: index_state
  all_documents :: "document list"
  indexed_count :: nat

datatype outcome = Skipped | Indexed | Failed

definition should_skip :: "bool \<Rightarrow> index_state \<Rightarrow> PaperInfo \<Rightarrow> pystr \<Rightarrow> bool" where
  "should_skip force st paper file_hash =
     (\<not> force \<and>
      (case indexed_files st (zotero_key paper) of
         None \<Rightarrow> False
       | Some r \<Rightarrow> rec_hash r = Some file_hash))"

definition record_paper :: "env \<Rightarrow> PaperInfo \<Rightarrow> pystr \<Rightarrow> document list \<Rightarrow> run \<Rightarrow> run" where
  "record_paper E paper file_hash pages r =
     \<lparr>run_state = (run_state r)\<lparr>indexed_files :=
          (indexed_files (run_state r))(zotero_key paper \<mapsto>
             \<lparr>rec_hash = Some file_hash, rec_indexed_at = now E,
              rec_title = title paper, rec_authors = authors paper,
              rec_year = year paper, rec_pages = length pages\<rparr>)\<rparr>,
      all_documents = all_documents r @ pages,
      indexed_count = indexed_count r + 1\<rparr>"

text \<open>
  One iteration of \<open>for paper in papers\<close>. The fingerprint is read outside the
  \<open>try\<close>, so a failing read leaves the function; a failing extraction is caught,
  reported and the loop goes on with the variables as they were.
\<close>

definition process_paper :: "env \<Rightarrow> bool \<Rightarrow> run \<Rightarrow> PaperInfo \<Rightarrow> exn + (outcome \<times> run)" where
  "process_paper E force r paper =
     (case get_file_hash E (file_path paper) of
        Inl e \<Rightarrow> Inl e
      | Inr file_hash \<Rightarrow>
          if should_skip force (run_state r) paper file_hash then Inr (Skipped, r)
          else (case extract_pdf_by_pages E paper of
                  Inl e \<Rightarrow> Inr (Failed, r)
                | Inr pages \<Rightarrow> Inr (Indexed, record_paper E paper file_hash pages r)))"

fun index_loop :: "env \<Rightarrow> bool \<Rightarrow> PaperInfo list \<Rightarrow> run \<Rightarrow> exn + run" where
  "index_loop E force [] r = Inr r"
| "index_loop E force (paper # papers) r =
     (case process_paper E force r paper of
        Inl e \<Rightarrow> Inl e
      | Inr (out, r') \<Rightarrow> index_loop E force papers r')"

text \<open>
  \<open>index_papers\<close>, from the list \<open>find_all_pdfs\<close> returned. It yields the count and the
  content of \<open>index_state.json\<close> after the call, or the exception that left it.
\<close>

definition index_papers ::
  "env \<Rightarrow> index_state option \<Rightarrow> PaperInfo list \<Rightarrow> bool \<Rightarrow> exn + (nat \<times> index_state option)" where
  "index_papers E disk papers force =
     (if papers = [] then Inr (0, disk)
      else
        (case index_loop E force papers
                \<lparr>run_state = (if \<not> force then load_index_state disk
                               else \<lparr>indexed_files = Map.empty, last_indexed = None\<rparr>),
                 all_documents = [], indexed_count = 0\<rparr> of
           Inl e \<Rightarrow> Inl e
         | Inr r \<Rightarrow>
             (case (if all_documents r \<noteq> [] then from_documents E (all_documents r)
                    else Inr ()) of
                Inl e \<Rightarrow> Inl e
              | Inr u \<Rightarrow> Inr (indexed_count r, save_index_state E (run_state r)))))"

text \<open>Two calls of \<open>index_papers\<close> in a row on the same files; the count of the second.\<close>

definition run_twice :: "env \<Rightarrow> index_state option \<Rightarrow> PaperInfo list \<Rightarrow> bool \<Rightarrow> exn + nat" where
  "run_twice E disk papers force =
     (case index_papers E disk papers force of
        Inl e \<Rightarrow> Inl e
      | Inr (n, disk') \<Rightarrow>
          (case index_papers E disk' papers False of
             Inl e \<Rightarrow> Inl e
           | Inr (n', disk'') \<Rightarrow> Inr n'))"

section \<open>A small library, for evaluation\<close>

text \<open>
  Attachments under the keys \<open>AAAAAAAA\<close> and \<open>BBBBBBBB\<close>. Every path can be read (the
  content is the path's last component, as octets); \<open>b.pdf\<close> cannot be parsed, every
  other file has a text page and a blank page. \<open>paper_a2\<close> is a second PDF in the
  directory of \<open>paper_a\<close>.
\<close>

definition paper_a :: PaperInfo where
  "paper_a = \<lparr>authors = py ''Lee'', year = py ''2025'', title = py ''Dropout'',
              zotero_key = py ''AAAAAAAA'', file_path = [py ''AAAAAAAA'', py ''a.pdf'']\<rparr>"

definition paper_a2 :: PaperInfo where
  "paper_a2 = \<lparr>authors = py ''Unknown'', year = [], title = py ''a2'',
               zotero_key = py ''AAAAAAAA'', file_path = [py ''AAAAAAAA'', py ''a2.pdf'']\<rparr>"

definition paper_b :: PaperInfo where
  "paper_b = \<lparr>authors = py ''Unknown'', year = [], title = py ''b'',
              zotero_key = py ''BBBBBBBB'', file_path = [py ''BBBBBBBB'', py ''b.pdf'']\<rparr>"

text \<open>A stand-in for the digest where only equality of fingerprints matters: the octets themselves.\<close>

definition octets_digest :: "byte list \<Rightarrow> pystr" where
  "octets_digest bs = map unat bs"

definition library_env :: "(byte list \<Rightarrow> pystr) \<Rightarrow> env" where
  "library_env H =
     \<lparr>open_rb = (\<lambda>p. Inr (map of_nat (path_name p))),
      fitz_open = (\<lambda>p. if path_name p = py ''b.pdf'' then Inl (Exception (py ''cannot open''))
                        else Inr [py ''text'', py '' '']),
      md5_hexdigest = H,
      from_documents = (\<lambda>ds. Inr ()),
      now = py ''2026-01-01T00:00:00''\<rparr>"

definition record_a :: "pystr \<Rightarrow> IndexedFileRecord" where
  "record_a h = \<lparr>rec_hash = Some h, rec_indexed_at = py ''2025-12-31T00:00:00'',
                 rec_title = py ''Dropout'', rec_authors = py ''Lee'',
                 rec_year = py ''2025'', rec_pages = 1\<rparr>"

section \<open>Helper lemmas\<close>

lemma concat_read_chunks: "concat (read_chunks bs) = bs"
proof (induction bs rule: read_chunks.induct)
  case (1 bs)
  show ?case
  proof (cases "bs = []")
    case True
    then show ?thesis by (simp add: read_chunks.simps)
  next
    case False
    with 1 have "concat (read_chunks (drop 4096 bs)) = drop 4096 bs" by simp
    with False show ?thesis by (subst read_chunks.simps) simp
  qed
qed

lemma get_file_hash_eq:
  "get_file_hash E p =
     (case open_rb E p of Inl e \<Rightarrow> Inl e | Inr bs \<Rightarrow> Inr (md5_hexdigest E bs))"
  by (simp add: get_file_hash_def concat_read_chunks split: sum.splits)

lemma py_strip_Nil_iff: "py_strip s = [] \<longleftrightarrow> list_all py_isspace s"
proof -
  have "(\<forall>x\<in>set (dropWhile py_isspace s). py_isspace x) \<longleftrightarrow> dropWhile py_isspace s = []"
  proof (cases "dropWhile py_isspace s")
    case Nil
    then show ?thesis by (simp del: dropWhile_eq_Nil_conv)
  next
    case (Cons y ys)
    with hd_dropWhile [of py_isspace s] have "\<not> py_isspace y" by simp
    with Cons show ?thesis by auto
  qed
  then have "py_strip s = [] \<longleftrightarrow> dropWhile py_isspace s = []"
    by (simp add: py_strip_def dropWhile_eq_Nil_conv)
  then show ?thesis
    by (simp add: dropWhile_eq_Nil_conv list_all_iff)
qed

lemma pages_loop_numbered:
  "map (\<lambda>(t, m). (t, meta_page m)) (pages_loop paper n k doc) =
     filter (\<lambda>(t, i). \<not> list_all py_isspace t) (zip doc [Suc k..<Suc k + length doc])"
proof (induction doc arbitrary: k)
  case Nil
  then show ?case by simp
next
  case (Cons t doc)
  have "[Suc k..<Suc k + length (t # doc)] = Suc k # [Suc (Suc k)..<Suc (Suc k) + length doc]"
    by (subst upt_rec) simp
  with Cons [of "Suc k"] show ?case
    by (simp add: py_strip_Nil_iff)
qed

lemma pages_loop_member:
  "(t, m) \<in> set (pages_loop paper n k doc) \<Longrightarrow>
     \<not> list_all py_isspace t \<and> k < meta_page m \<and> meta_page m \<le> k + length doc \<and>
     meta_total_pages m = n \<and> meta_zotero_key m = zotero_key paper \<and>
     meta_file_path m = file_path paper"
proof (induction doc arbitrary: k)
  case Nil
  then show ?case by simp
next
  case (Cons x doc)
  show ?case
  proof (cases "(t, m) \<in> set (pages_loop paper n (Suc k) doc)")
    case True
    from Cons.IH [OF True] show ?thesis by simp
  next
    case False
    with Cons.prems show ?thesis
      by (auto simp: py_strip_Nil_iff split: if_splits)
  qed
qed

lemma process_paper_cases:
  assumes "process_paper E force r paper = Inr (out, r')"
  obtains h where "get_file_hash E (file_path paper) = Inr h" "out = Skipped" "r' = r"
      "should_skip force (run_state r) paper h"
    | h e where "get_file_hash E (file_path paper) = Inr h" "out = Failed" "r' = r"
      "\<not> should_skip force (run_state r) paper h" "extract_pdf_by_pages E paper = Inl e"
    | h pages where "get_file_hash E (file_path paper) = Inr h" "out = Indexed"
      "r' = record_paper E paper h pages r"
      "\<not> should_skip force (run_state r) paper h" "extract_pdf_by_pages E paper = Inr pages"
  using assms
  by (auto simp: process_paper_def split: sum.splits if_splits)

lemma index_loop_Cons_Inr:
  assumes "index_loop E force (p # ps) r = Inr r'"
  obtains out r1 where "process_paper E force r p = Inr (out, r1)"
    "index_loop E force ps r1 = Inr r'"
  using assms by (auto split: sum.splits)

text \<open>Under the force flag every document is extracted: the keys and the count.\<close>

lemma index_loop_forced:
  "index_loop E True ps r = Inr r' \<Longrightarrow>
     dom (indexed_files (run_state r')) =
       dom (indexed_files (run_state r)) \<union>
       {zotero_key p |p. p \<in> set ps \<and> (\<exists>pages. extract_pdf_by_pages E p = Inr pages)} \<and>
     indexed_count r' =
       indexed_count r + length (filter (\<lambda>p. \<exists>pages. extract_pdf_by_pages E p = Inr pages) ps)"
proof (induction ps arbitrary: r)
  case Nil
  then show ?case by simp
next
  case (Cons p ps)
  from Cons.prems obtain out r1 where
    step: "process_paper E True r p = Inr (out, r1)" and rest: "index_loop E True ps r1 = Inr r'"
    by (rule index_loop_Cons_Inr)
  note ih = Cons.IH [OF rest]
  from step show ?case
  proof (cases rule: process_paper_cases)
    case (1 h)
    then show ?thesis by (simp add: should_skip_def)
  next
    case (2 h e)
    with ih show ?thesis by auto
  next
    case (3 h pages)
    then have d1: "dom (indexed_files (run_state r1)) =
        insert (zotero_key p) (dom (indexed_files (run_state r)))"
      and c1: "indexed_count r1 = Suc (indexed_count r)"
      by (simp_all add: record_paper_def)
    from ih d1 c1 3(5) show ?thesis by auto
  qed
qed

text \<open>The loop touches the records of the keys it meets only.\<close>

lemma index_loop_frame:
  "index_loop E force ps r = Inr r' \<Longrightarrow> k \<notin> zotero_key ` set ps \<Longrightarrow>
     indexed_files (run_state r') k = indexed_files (run_state r) k"
proof (induction ps arbitrary: r)
  case Nil
  then show ?case by simp
next
  case (Cons p ps)
  from Cons.prems(1) obtain out r1 where
    step: "process_paper E force r p = Inr (out, r1)" and rest: "index_loop E force ps r1 = Inr r'"
    by (rule index_loop_Cons_Inr)
  from Cons.prems(2) have k: "k \<noteq> zotero_key p" "k \<notin> zotero_key ` set ps" by auto
  from Cons.IH [OF rest k(2)]
  have "indexed_files (run_state r') k = indexed_files (run_state r1) k" .
  moreover from step k(1) have "indexed_files (run_state r1) k = indexed_files (run_state r) k"
    by (cases rule: process_paper_cases) (auto simp: record_paper_def)
  ultimately show ?case by simp
qed

text \<open>
  After a loop over documents with pairwise different keys, every document either
  cannot be extracted or is recorded with its current fingerprint.
\<close>

definition settled :: "env \<Rightarrow> indexed_files \<Rightarrow> PaperInfo \<Rightarrow> bool" where
  "settled E files p =
     (case get_file_hash E (file_path p) of
        Inl e \<Rightarrow> False
      | Inr h \<Rightarrow>
          (case extract_pdf_by_pages E p of
             Inl e \<Rightarrow> True
           | Inr pages \<Rightarrow>
               (case files (zotero_key p) of
                  None \<Rightarrow> False
                | Some x \<Rightarrow> rec_hash x = Some h)))"

lemma settled_cong:
  "files (zotero_key p) = files' (zotero_key p) \<Longrightarrow> settled E files p = settled E files' p"
  by (simp add: settled_def split: sum.splits)

lemma index_loop_settles:
  "index_loop E force ps r = Inr r' \<Longrightarrow> distinct (map zotero_key ps) \<Longrightarrow>
     \<forall>p\<in>set ps. settled E (indexed_files (run_state r')) p"
proof (induction ps arbitrary: r)
  case Nil
  then show ?case by simp
next
  case (Cons p ps)
  from Cons.prems(1) obtain out r1 where
    step: "process_paper E force r p = Inr (out, r1)" and rest: "index_loop E force ps r1 = Inr r'"
    by (rule index_loop_Cons_Inr)
  from Cons.prems(2) have d: "zotero_key p \<notin> zotero_key ` set ps" "distinct (map zotero_key ps)"
    by auto
  from index_loop_frame [OF rest d(1)]
  have same: "indexed_files (run_state r') (zotero_key p) = indexed_files (run_state r1) (zotero_key p)" .
  from step have "settled E (indexed_files (run_state r1)) p"
    by (cases rule: process_paper_cases)
       (auto simp: settled_def should_skip_def record_paper_def split: option.splits sum.splits)
  with settled_cong [of "indexed_files (run_state r')" p "indexed_files (run_state r1)" E] same
  have "settled E (indexed_files (run_state r')) p" by simp
  with Cons.IH [OF rest d(2)] show ?case by simp
qed

lemma index_loop_settled_noop:
  "\<forall>p\<in>set ps. settled E (indexed_files (run_state r)) p \<Longrightarrow> index_loop E False ps r = Inr r"
proof (induction ps)
  case Nil
  then show ?case by simp
next
  case (Cons p ps)
  then have "settled E (indexed_files (run_state r)) p" by simp
  then have "\<exists>out. process_paper E False r p = Inr (out, r)"
    by (auto simp: settled_def process_paper_def should_skip_def split: sum.splits option.splits)
  with Cons show ?case by auto
qed

section \<open>Change detection\<close>



section \<open>Page extraction\<close>

text \<open>
  C4. When the PDF opens, \<open>extract_pdf_by_pages\<close> returns exactly the pages whose text
  is not whitespace-only, in page order, each with its 1-based page number. Every
  returned pair has a text that is non-empty and not whitespace-only, a page number
  between 1 and the page count, and the page count as \<open>total_pages\<close>; a whitespace-only
  page yields no pair.
\<close>

theorem extract_pdf_by_pages_nonblank:
  assumes "fitz_open E (file_path paper) = Inr doc"
  shows "\<exists>pages. extract_pdf_by_pages E paper = Inr pages \<and>
           map (\<lambda>(t, m). (t, meta_page m)) pages =
             filter (\<lambda>(t, i). \<not> list_all py_isspace t) (zip doc [1..<Suc (length doc)]) \<and>
           (\<forall>(t, m) \<in> set pages. t \<noteq> [] \<and> \<not> list_all py_isspace t \<and>
              1 \<le> meta_page m \<and> meta_page m \<le> length doc \<and>
              meta_total_pages m = length doc)"
proof -
  let ?pages = "pages_loop paper (length doc) 0 doc"
  have r: "extract_pdf_by_pages E paper = Inr ?pages"
    using assms by (simp add: extract_pdf_by_pages_def)
  have n: "map (\<lambda>(t, m). (t, meta_page m)) ?pages =
             filter (\<lambda>(t, i). \<not> list_all py_isspace t) (zip doc [1..<Suc (length doc)])"
    using pages_loop_numbered [of paper "length doc" 0 doc] by simp
  have m: "\<forall>(t, m) \<in> set ?pages. t \<noteq> [] \<and> \<not> list_all py_isspace t \<and>
              1 \<le> meta_page m \<and> meta_page m \<le> length doc \<and>
              meta_total_pages m = length doc"
  proof (clarify)
    fix t m
    assume "(t, m) \<in> set ?pages"
    from pages_loop_member [OF this]
    show "t \<noteq> [] \<and> \<not> list_all py_isspace t \<and> 1 \<le> meta_page m \<and>
          meta_page m \<le> length doc \<and> meta_total_pages m = length doc"
      by auto
  qed
  from r n m show ?thesis by blast
qed

theorem extract_pdf_by_pages_nonblank_witness:
  "fitz_open (library_env octets_digest) (file_path paper_a) = Inr [py ''text'', py '' ''] \<and>
   (\<exists>pages. extract_pdf_by_pages (library_env octets_digest) paper_a = Inr pages \<and>
      map (\<lambda>(t, m). (t, meta_page m)) pages = [(py ''text'', 1)])"
proof -
  have h: "fitz_open (library_env octets_digest) (file_path paper_a) = Inr [py ''text'', py '' '']"
    by (simp add: library_env_def paper_a_def path_name_def py_def)
  from extract_pdf_by_pages_nonblank [OF h] obtain pages where
    "extract_pdf_by_pages (library_env octets_digest) paper_a = Inr pages"
    "map (\<lambda>(t, m). (t, meta_page m)) pages =
       filter (\<lambda>(t, i). \<not> list_all py_isspace t) (zip [py ''text'', py '' ''] [1..<Suc (length [py ''text'', py '' ''])])"
    by blast
  moreover have "[1..<Suc (length [py ''text'', py '' ''])] = [1, 2]"
    by (simp add: upt_rec)
  ultimately show ?thesis using h
    by (simp add: py_def py_isspace_def)
qed

section \<open>Forced runs\<close>

text \<open>
  C10, as the code has it. A forced run that finds at least one document and returns
  starts from an empty state: the state it writes holds a record under a key exactly
  when a document of that key was extracted in this run, and it returns the number of
  documents extracted. (A run that finds no document returns before the state is
  touched.)
\<close>

theorem forced_run_records_extracted_only:
  assumes "papers \<noteq> []" and "index_papers E disk papers True = Inr (n, disk')"
  shows "\<exists>st. disk' = Some st \<and>
           dom (indexed_files st) =
             {zotero_key p |p. p \<in> set papers \<and> (\<exists>pages. extract_pdf_by_pages E p = Inr pages)} \<and>
           n = length (filter (\<lambda>p. \<exists>pages. extract_pdf_by_pages E p = Inr pages) papers)"
proof -
  let ?r0 = "\<lparr>run_state = \<lparr>indexed_files = Map.empty, last_indexed = None\<rparr>,
              all_documents = [], indexed_count = 0\<rparr>"
  from assms obtain r where loop: "index_loop E True papers ?r0 = Inr r"
    and out: "n = indexed_count r" "disk' = save_index_state E (run_state r)"
    by (auto simp: index_papers_def split: sum.splits if_splits)
  from index_loop_forced [OF loop] out show ?thesis
    by (simp add: save_index_state_def)
qed

theorem forced_run_records_extracted_only_witness:
  "[paper_a, paper_b] \<noteq> [] \<and>
   (\<exists>st. index_papers (library_env octets_digest)
            (Some \<lparr>indexed_files = [py ''BBBBBBBB'' \<mapsto> record_a []], last_indexed = None\<rparr>)
            [paper_a, paper_b] True = Inr (1, Some st) \<and>
          dom (indexed_files st) = {py ''AAAAAAAA''})"
proof -
  let ?E = "library_env octets_digest"
  let ?disk = "Some \<lparr>indexed_files = [py ''BBBBBBBB'' \<mapsto> record_a []], last_indexed = None\<rparr>"
  have a: "extract_pdf_by_pages ?E paper_a = Inr (pages_loop paper_a 2 0 [py ''text'', py '' ''])"
    by (simp add: extract_pdf_by_pages_def library_env_def paper_a_def path_name_def py_def)
  have b: "extract_pdf_by_pages ?E paper_b = Inl (Exception (py ''cannot open''))"
    by (simp add: extract_pdf_by_pages_def library_env_def paper_b_def path_name_def)
  have ha: "get_file_hash ?E (file_path paper_a) = Inr (octets_digest (map of_nat (py ''a.pdf'')))"
    by (simp add: get_file_hash_eq library_env_def paper_a_def path_name_def)
  have hb: "get_file_hash ?E (file_path paper_b) = Inr (octets_digest (map of_nat (py ''b.pdf'')))"
    by (simp add: get_file_hash_eq library_env_def paper_b_def path_name_def)
  have f: "from_documents ?E = (\<lambda>ds. Inr ())"
    by (simp add: library_env_def)
  have "\<exists>n disk'. index_papers ?E ?disk [paper_a, paper_b] True = Inr (n, disk')"
    by (simp add: index_papers_def process_paper_def should_skip_def a b ha hb f)
  then obtain n disk' where run: "index_papers ?E ?disk [paper_a, paper_b] True = Inr (n, disk')"
    by blast
  have ne: "[paper_a, paper_b] \<noteq> []" by simp
  from a have a': "\<exists>pages. extract_pdf_by_pages ?E paper_a = Inr pages" by blast
  from b have b': "\<not> (\<exists>pages. extract_pdf_by_pages ?E paper_b = Inr pages)" by simp
  have S: "{zotero_key p |p. p \<in> set [paper_a, paper_b] \<and>
              (\<exists>pages. extract_pdf_by_pages ?E p = Inr pages)} = {zotero_key paper_a}"
    using a' b' by auto
  have L: "length (filter (\<lambda>p. \<exists>pages. extract_pdf_by_pages ?E p = Inr pages)
              [paper_a, paper_b]) = 1"
    using a' b' by simp
  from forced_run_records_extracted_only [OF ne run] obtain st where
    "disk' = Some st"
    "dom (indexed_files st) = {zotero_key p |p. p \<in> set [paper_a, paper_b] \<and>
              (\<exists>pages. extract_pdf_by_pages ?E p = Inr pages)}"
    "n = length (filter (\<lambda>p. \<exists>pages. extract_pdf_by_pages ?E p = Inr pages)
              [paper_a, paper_b])"
    by blast
  with S L run show ?thesis by (simp add: paper_a_def)
qed

text \<open>
  The claim as it is written fails for a forced run that finds no document: the prior
  state stays on disk, with its record of a file that is gone.
\<close>

theorem forced_run_empty_library_keeps_state:
  "index_papers (library_env octets_digest)
     (Some \<lparr>indexed_files = [py ''BBBBBBBB'' \<mapsto> record_a []], last_indexed = None\<rparr>) [] True
   = Inr (0, Some \<lparr>indexed_files = [py ''BBBBBBBB'' \<mapsto> record_a []], last_indexed = None\<rparr>)"
  by (simp add: index_papers_def)

section \<open>Idempotence\<close>

text \<open>
  C2, as the code has it. When the documents found have pairwise different identity
  keys and a run returns, a second run without the force flag over the same files
  returns 0.
\<close>

theorem second_run_indexes_nothing:
  assumes "distinct (map zotero_key papers)"
    and "index_papers E disk papers force = Inr (n, disk')"
  shows "run_twice E disk papers force = Inr 0"
proof (cases "papers = []")
  case True
  with assms(2) show ?thesis
    by (simp add: run_twice_def index_papers_def)
next
  case False
  let ?r0 = "\<lparr>run_state = (if \<not> force then load_index_state disk
                            else \<lparr>indexed_files = Map.empty, last_indexed = None\<rparr>),
              all_documents = [], indexed_count = 0\<rparr>"
  from assms(2) False obtain r where loop: "index_loop E force papers ?r0 = Inr r"
    and out: "disk' = save_index_state E (run_state r)"
    by (auto simp: index_papers_def split: sum.splits if_splits)
  let ?r1 = "\<lparr>run_state = load_index_state disk', all_documents = [], indexed_count = 0\<rparr>"
  have "indexed_files (run_state ?r1) = indexed_files (run_state r)"
    using out by (simp add: save_index_state_def load_index_state_def)
  with index_loop_settles [OF loop assms(1)]
  have "\<forall>p\<in>set papers. settled E (indexed_files (run_state ?r1)) p" by simp
  from index_loop_settled_noop [OF this]
  have "index_papers E disk' papers False = Inr (0, save_index_state E (load_index_state disk'))"
    using False by (simp add: index_papers_def)
  with assms(2) show ?thesis by (simp add: run_twice_def)
qed

theorem second_run_indexes_nothing_witness:
  "distinct (map zotero_key [paper_a, paper_b]) \<and>
   (\<exists>n disk'. index_papers (library_env octets_digest) None [paper_a, paper_b] False = Inr (n, disk')) \<and>
   run_twice (library_env octets_digest) None [paper_a, paper_b] False = Inr 0"
proof -
  let ?E = "library_env octets_digest"
  have a: "extract_pdf_by_pages ?E paper_a = Inr (pages_loop paper_a 2 0 [py ''text'', py '' ''])"
    by (simp add: extract_pdf_by_pages_def library_env_def paper_a_def path_name_def py_def)
  have b: "extract_pdf_by_pages ?E paper_b = Inl (Exception (py ''cannot open''))"
    by (simp add: extract_pdf_by_pages_def library_env_def paper_b_def path_name_def)
  have ha: "get_file_hash ?E (file_path paper_a) = Inr (octets_digest (map of_nat (py ''a.pdf'')))"
    by (simp add: get_file_hash_eq library_env_def paper_a_def path_name_def)
  have hb: "get_file_hash ?E (file_path paper_b) = Inr (octets_digest (map of_nat (py ''b.pdf'')))"
    by (simp add: get_file_hash_eq library_env_def paper_b_def path_name_def)
  have d: "distinct (map zotero_key [paper_a, paper_b])"
    by (simp add: paper_a_def paper_b_def py_def)
  have f: "from_documents ?E = (\<lambda>ds. Inr ())"
    by (simp add: library_env_def)
  have "\<exists>n disk'. index_papers ?E None [paper_a, paper_b] False = Inr (n, disk')"
    by (simp add: index_papers_def process_paper_def should_skip_def a b ha hb f
        load_index_state_def)
  then obtain n disk' where run: "index_papers ?E None [paper_a, paper_b] False = Inr (n, disk')"
    by blast
  from second_run_indexes_nothing [OF d run] d run show ?thesis by blast
qed

text \<open>
  The claim as it is written fails when two PDFs lie in one key directory: each run
  records the one under the key and so finds the other changed.
\<close>

theorem second_run_reindexes_shared_key:
  "run_twice (library_env octets_digest) None [paper_a, paper_a2] False = Inr 2"
proof -
  let ?E = "library_env octets_digest"
  have a: "extract_pdf_by_pages ?E paper_a = Inr (pages_loop paper_a 2 0 [py ''text'', py '' ''])"
    by (simp add: extract_pdf_by_pages_def library_env_def paper_a_def path_name_def py_def)
  have a2: "extract_pdf_by_pages ?E paper_a2 = Inr (pages_loop paper_a2 2 0 [py ''text'', py '' ''])"
    by (simp add: extract_pdf_by_pages_def library_env_def paper_a2_def path_name_def py_def)
  have ha: "get_file_hash ?E (file_path paper_a) = Inr (octets_digest (map of_nat (py ''a.pdf'')))"
    by (simp add: get_file_hash_eq library_env_def paper_a_def path_name_def)
  have ha2: "get_file_hash ?E (file_path paper_a2) = Inr (octets_digest (map of_nat (py ''a2.pdf'')))"
    by (simp add: get_file_hash_eq library_env_def paper_a2_def path_name_def)
  have k: "zotero_key paper_a2 = zotero_key paper_a"
    by (simp add: paper_a_def paper_a2_def)
  have ne: "octets_digest (map of_nat (py ''a.pdf'')) \<noteq> octets_digest (map of_nat (py ''a2.pdf''))"
    by (simp add: octets_digest_def py_def)
  have f: "from_documents ?E = (\<lambda>ds. Inr ())"
    by (simp add: library_env_def)
  show ?thesis
    using ne
    by (simp add: run_twice_def index_papers_def process_paper_def should_skip_def a a2 ha ha2 k f
        load_index_state_def save_index_state_def record_paper_def)
qed

section \<open>zotero\_meta.py: creators\<close>

text \<open>
  The tables the creators query joins. \<open>creators\<close> and \<open>creatorTypes\<close> are keyed by
  their ids; a name column may be NULL. The query returns, for one item, the joined rows
  in the order of \<open>orderIndex\<close> (rows of equal index in table order).
\<close>

record itemCreator =
  ic_itemID :: int
  ic_creatorID :: int
  ic_creatorTypeID :: int
  ic_orderIndex :: int

record zotero_db =
  itemCreators :: "itemCreator list"
  creators :: "int \<rightharpoonup> (pystr option \<times> pystr option)"
  creatorTypes :: "int \<rightharpoonup> pystr"

record creator_row =
  firstName :: "pystr option"
  lastName :: "pystr option"
  creatorType :: pystr

definition item_creators_ordered :: "zotero_db \<Rightarrow> int \<Rightarrow> itemCreator list" where
  "item_creators_ordered db item_id =
     sort_key ic_orderIndex (filter (\<lambda>ic. ic_itemID ic = item_id) (itemCreators db))"

definition join_creator :: "zotero_db \<Rightarrow> itemCreator \<Rightarrow> creator_row option" where
  "join_creator db ic =
     (case creators db (ic_creatorID ic) of
        None \<Rightarrow> None
      | Some (f, l) \<Rightarrow>
          (case creatorTypes db (ic_creatorTypeID ic) of
             None \<Rightarrow> None
           | Some ct \<Rightarrow> Some \<lparr>firstName = f, lastName = l, creatorType = ct\<rparr>))"

definition creators_query :: "zotero_db \<Rightarrow> int \<Rightarrow> creator_row list" where
  "creators_query db item_id = List.map_filter (join_creator db) (item_creators_ordered db item_id)"

record PaperMetadata =
  pm_item_key :: pystr
  pm_title :: pystr
  pm_authors :: "pystr list"
  pm_year :: pystr
  pm_date :: pystr
  pm_journal :: pystr
  pm_volume :: pystr
  pm_issue :: pystr
  pm_pages :: pystr
  pm_doi :: pystr
  pm_url :: pystr
  pm_isbn :: pystr
  pm_issn :: pystr
  pm_abstract :: pystr
  pm_tags :: "pystr list"
  pm_notes :: "pystr list"
  pm_item_type :: pystr
  pm_attachments :: "pystr list"

text \<open>The name of one row: \<open>first = row['firstName'] or ""\<close>, and so on.\<close>

definition creator_name :: "creator_row \<Rightarrow> pystr" where
  "creator_name row =
     (let first = (case firstName row of None \<Rightarrow> [] | Some s \<Rightarrow> s);
          last = (case lastName row of None \<Rightarrow> [] | Some s \<Rightarrow> s)
      in if first \<noteq> [] \<and> last \<noteq> [] then first @ py '' '' @ last
         else if last \<noteq> [] then last else first)"

fun creators_loop :: "creator_row list \<Rightarrow> PaperMetadata \<Rightarrow> PaperMetadata" where
  "creators_loop [] metadata = metadata"
| "creators_loop (row # rows) metadata =
     (let name = creator_name row
      in creators_loop rows
           (if name \<noteq> [] then metadata\<lparr>pm_authors := pm_authors metadata @ [name]\<rparr>
            else metadata))"

definition load_creators :: "zotero_db \<Rightarrow> int \<Rightarrow> PaperMetadata \<Rightarrow> PaperMetadata" where
  "load_creators db item_id metadata = creators_loop (creators_query db item_id) metadata"

definition present :: "pystr option \<Rightarrow> bool" where
  "present x = (x \<noteq> None \<and> x \<noteq> Some [])"

lemma creators_loop_authors:
  "creators_loop rows metadata =
     metadata\<lparr>pm_authors := pm_authors metadata @ filter (\<lambda>n. n \<noteq> []) (map creator_name rows)\<rparr>"
  by (induction rows arbitrary: metadata) (simp_all add: Let_def)

text \<open>
  C7. The authors appended by \<open>load_creators\<close> are the names of the item's creators,
  taken in ascending order index, without the empty names. A creator with exactly one
  of first and last name present has that one as its name; a creator with neither has
  the empty name and is left out; one with both has first name, a space, last name.
\<close>

theorem load_creators_in_order:
  "sorted (map ic_orderIndex (item_creators_ordered db item_id)) \<and>
   mset (item_creators_ordered db item_id) =
     mset (filter (\<lambda>ic. ic_itemID ic = item_id) (itemCreators db)) \<and>
   pm_authors (load_creators db item_id metadata) =
     pm_authors metadata @
     filter (\<lambda>n. n \<noteq> [])
       (map creator_name (List.map_filter (join_creator db) (item_creators_ordered db item_id))) \<and>
   (present (firstName row) \<and> \<not> present (lastName row) \<longrightarrow>
      creator_name row = the (firstName row)) \<and>
   (\<not> present (firstName row) \<and> present (lastName row) \<longrightarrow>
      creator_name row = the (lastName row)) \<and>
   (\<not> present (firstName row) \<and> \<not> present (lastName row) \<longrightarrow> creator_name row = []) \<and>
   (present (firstName row) \<and> present (lastName row) \<longrightarrow>
      creator_name row = the (firstName row) @ py '' '' @ the (lastName row) \<and>
      creator_name row \<noteq> [])"
proof -
  have 1: "sorted (map ic_orderIndex (item_creators_ordered db item_id))"
    by (simp add: item_creators_ordered_def)
  have 2: "mset (item_creators_ordered db item_id) =
      mset (filter (\<lambda>ic. ic_itemID ic = item_id) (itemCreators db))"
    by (simp add: item_creators_ordered_def)
  have 3: "pm_authors (load_creators db item_id metadata) =
     pm_authors metadata @
     filter (\<lambda>n. n \<noteq> [])
       (map creator_name (List.map_filter (join_creator db) (item_creators_ordered db item_id)))"
    by (simp add: load_creators_def creators_query_def creators_loop_authors)
  have 4: "(present (firstName row) \<and> \<not> present (lastName row) \<longrightarrow>
      creator_name row = the (firstName row)) \<and>
   (\<not> present (firstName row) \<and> present (lastName row) \<longrightarrow>
      creator_name row = the (lastName row)) \<and>
   (\<not> present (firstName row) \<and> \<not> present (lastName row) \<longrightarrow> creator_name row = []) \<and>
   (present (firstName row) \<and> present (lastName row) \<longrightarrow>
      creator_name row = the (firstName row) @ py '' '' @ the (lastName row) \<and>
      creator_name row \<noteq> [])"
    by (auto simp: creator_name_def present_def Let_def split: option.splits)
  from 1 2 3 4 show ?thesis by blast
qed

text \<open>
  An item with three creators stored out of order: a last name only (index 0), no name
  at all (index 1), both names (index 2).
\<close>

definition demo_db :: zotero_db where
  "demo_db =
     \<lparr>itemCreators =
        [\<lparr>ic_itemID = 7, ic_creatorID = 3, ic_creatorTypeID = 1, ic_orderIndex = 2\<rparr>,
         \<lparr>ic_itemID = 7, ic_creatorID = 1, ic_creatorTypeID = 1, ic_orderIndex = 0\<rparr>,
         \<lparr>ic_itemID = 8, ic_creatorID = 3, ic_creatorTypeID = 1, ic_orderIndex = 0\<rparr>,
         \<lparr>ic_itemID = 7, ic_creatorID = 2, ic_creatorTypeID = 1, ic_orderIndex = 1\<rparr>],
      creators = [1 \<mapsto> (None, Some (py ''Lee'')), 2 \<mapsto> (Some [], None),
                  3 \<mapsto> (Some (py ''Ada''), Some (py ''Kim''))],
      creatorTypes = [1 \<mapsto> py ''author'']\<rparr>"

definition empty_metadata :: "pystr \<Rightarrow> pystr \<Rightarrow> PaperMetadata" where
  "empty_metadata k t =
     \<lparr>pm_item_key = k, pm_title = [], pm_authors = [], pm_year = [], pm_date = [],
      pm_journal = [], pm_volume = [], pm_issue = [], pm_pages = [], pm_doi = [],
      pm_url = [], pm_isbn = [], pm_issn = [], pm_abstract = [], pm_tags = [],
      pm_notes = [], pm_item_type = t, pm_attachments = []\<rparr>"

theorem load_creators_in_order_witness:
  "pm_authors (load_creators demo_db 7 (empty_metadata (py ''3GPQD2K2'') (py ''journalArticle'')))
     = [py ''Lee'', py ''Ada Kim''] \<and>
   present (Some (py ''Ada'')) \<and> \<not> present (Some []) \<and> \<not> present None"
proof -
  have o: "item_creators_ordered demo_db 7 =
     [\<lparr>ic_itemID = 7, ic_creatorID = 1, ic_creatorTypeID = 1, ic_orderIndex = 0\<rparr>,
      \<lparr>ic_itemID = 7, ic_creatorID = 2, ic_creatorTypeID = 1, ic_orderIndex = 1\<rparr>,
      \<lparr>ic_itemID = 7, ic_creatorID = 3, ic_creatorTypeID = 1, ic_orderIndex = 2\<rparr>]"
    by (simp add: item_creators_ordered_def demo_db_def)
  have p: "present (Some (py ''Ada'')) \<and> \<not> present (Some []) \<and> \<not> present None"
    by (simp add: present_def py_def)
  from load_creators_in_order [of demo_db 7 "empty_metadata (py ''3GPQD2K2'') (py ''journalArticle'')"]
  have "pm_authors (load_creators demo_db 7 (empty_metadata (py ''3GPQD2K2'') (py ''journalArticle'')))
     = pm_authors (empty_metadata (py ''3GPQD2K2'') (py ''journalArticle'')) @
       filter (\<lambda>n. n \<noteq> [])
         (map creator_name (List.map_filter (join_creator demo_db) (item_creators_ordered demo_db 7)))"
    by blast
  moreover have "List.map_filter (join_creator demo_db) (item_creators_ordered demo_db 7) =
      [\<lparr>firstName = None, lastName = Some (py ''Lee''), creatorType = py ''author''\<rparr>,
       \<lparr>firstName = Some [], lastName = None, creatorType = py ''author''\<rparr>,
       \<lparr>firstName = Some (py ''Ada''), lastName = Some (py ''Kim''), creatorType = py ''author''\<rparr>]"
    by (simp only: o) (simp add: List.map_filter_def join_creator_def demo_db_def)
  moreover have "pm_authors (empty_metadata (py ''3GPQD2K2'') (py ''journalArticle'')) = []"
    by (simp add: empty_metadata_def)
  ultimately have "pm_authors (load_creators demo_db 7
        (empty_metadata (py ''3GPQD2K2'') (py ''journalArticle''))) =
      filter (\<lambda>n. n \<noteq> []) (map creator_name
      [\<lparr>firstName = None, lastName = Some (py ''Lee''), creatorType = py ''author''\<rparr>,
       \<lparr>firstName = Some [], lastName = None, creatorType = py ''author''\<rparr>,
       \<lparr>firstName = Some (py ''Ada''), lastName = Some (py ''Kim''), creatorType = py ''author''\<rparr>])"
    by simp
  also have "\<dots> = [py ''Lee'', py ''Ada Kim'']"
    by (simp add: creator_name_def py_def)
  finally show ?thesis using p by simp
qed

section \<open>query.py: retrieval\<close>











section \<open>mcp\_server.py: the four operations\<close>







































end
